theory Spec2Isabelle
  imports Complex_Main
begin

section \<open>Water quality evaluation (lib/water-quality.js)\<close>

text \<open>
  The module holds a table of sensor thresholds and three functions over it:
  \<open>getSensorStatus\<close>, \<open>calculateWaterQuality\<close> and \<open>getSafeRangePercentage\<close>.

  Numbers. A JavaScript number is an IEEE 754 binary64 value. A finite one is modelled
  by the real number it denotes, so a reading \<open>val :: real\<close> stands for the double with
  that value (the decimal 7.2 is not a double; the reading written \<open>7.2\<close> in JavaScript
  is \<open>8106479329266893 / 2 ^ 50\<close>). The three other values are \<open>PosInf\<close>, \<open>NegInf\<close> and
  \<open>NaN\<close>. Every arithmetic operation computes the exact real result and rounds it to
  the nearest double, ties to even (\<open>fl\<close>). The two zeros are one number here: they
  compare equal, and differ only as divisors, which no zero is in this module.
\<close>

subsection \<open>Doubles and rounding\<close>

datatype jsnum = Num real | PosInf | NegInf | NaN

text \<open>Rounding a real to the nearest integer, ties to the even one.\<close>

definition rne :: "real \<Rightarrow> int" where
  "rne x = (let n = \<lfloor>x\<rfloor>; d = x - of_int n
            in if d < 1 / 2 then n else if 1 / 2 < d then n + 1
               else if even n then n else n + 1)"

text \<open>The binary exponent of a double near \<open>x\<close>: the largest \<open>e\<close> from -1021 to 1023
  with \<open>2 powi e \<le> \<bar>x\<bar>\<close>, and -1022 (the exponent of the smallest normal and of the
  subnormal doubles) when there is none. \<open>exp_search n\<close> tries the \<open>n\<close> exponents from
  \<open>n - 1022\<close> downwards.\<close>

fun exp_search :: "nat \<Rightarrow> real \<Rightarrow> int" where
  "exp_search 0 y = - 1022"
| "exp_search (Suc n) y =
     (if 2 powi (int n - 1021) \<le> y then int n - 1021 else exp_search n y)"

definition exponent :: "real \<Rightarrow> int" where
  "exponent x = exp_search 2045 \<bar>x\<bar>"

text \<open>The doubles with exponent \<open>e\<close> are the multiples of \<open>2 powi (e - 52)\<close>. A result
  that rounds to \<open>2 ^ 1024\<close> or beyond is an infinity.\<close>

definition overflow :: real where
  "overflow = 2 ^ 1024"

definition fl :: "real \<Rightarrow> jsnum" where
  "fl x = (let u = 2 powi (exponent x - 52); r = of_int (rne (x / u)) * u
           in if overflow \<le> r then PosInf
              else if r \<le> - overflow then NegInf
              else Num r)"

subsection \<open>Comparison and arithmetic\<close>

text \<open>Comparisons with \<open>NaN\<close> are false. Arithmetic gives \<open>NaN\<close> when an argument is
  \<open>NaN\<close> and for \<open>Infinity - Infinity\<close>, \<open>0 * Infinity\<close>, \<open>0 / 0\<close> and
  \<open>Infinity / Infinity\<close>; \<open>Math.min\<close>, \<open>Math.max\<close> and \<open>Math.abs\<close> give \<open>NaN\<close> when an
  argument is \<open>NaN\<close>.\<close>

fun js_neg :: "jsnum \<Rightarrow> jsnum" where
  "js_neg (Num a) = Num (- a)"
| "js_neg PosInf = NegInf"
| "js_neg NegInf = PosInf"
| "js_neg NaN = NaN"

fun negative :: "jsnum \<Rightarrow> bool" where
  "negative (Num a) = (a < 0)"
| "negative NegInf = True"
| "negative _ = False"

fun js_le :: "jsnum \<Rightarrow> jsnum \<Rightarrow> bool" where
  "js_le NaN _ = False"
| "js_le _ NaN = False"
| "js_le NegInf _ = True"
| "js_le _ PosInf = True"
| "js_le (Num a) (Num b) = (a \<le> b)"
| "js_le _ _ = False"

definition js_ge :: "jsnum \<Rightarrow> jsnum \<Rightarrow> bool" where
  "js_ge a b = js_le b a"

fun js_add :: "jsnum \<Rightarrow> jsnum \<Rightarrow> jsnum" where
  "js_add (Num a) (Num b) = fl (a + b)"
| "js_add NaN _ = NaN"
| "js_add _ NaN = NaN"
| "js_add PosInf NegInf = NaN"
| "js_add NegInf PosInf = NaN"
| "js_add PosInf _ = PosInf"
| "js_add NegInf _ = NegInf"
| "js_add _ PosInf = PosInf"
| "js_add _ NegInf = NegInf"

definition js_sub :: "jsnum \<Rightarrow> jsnum \<Rightarrow> jsnum" where
  "js_sub a b = js_add a (js_neg b)"

fun js_mul :: "jsnum \<Rightarrow> jsnum \<Rightarrow> jsnum" where
  "js_mul (Num a) (Num b) = fl (a * b)"
| "js_mul NaN _ = NaN"
| "js_mul _ NaN = NaN"
| "js_mul a b =
     (if a = Num 0 \<or> b = Num 0 then NaN
      else if negative a = negative b then PosInf else NegInf)"

text \<open>A nonzero number divided by zero is an infinity, with the sign of the dividend
  for the divisor \<open>+0\<close>. The divisors of this module are \<open>range / 2 = 1\<close> and the \<open>max\<close>
  of a table entry (5, 500, 25), or \<open>undefined\<close>.\<close>

fun js_div :: "jsnum \<Rightarrow> jsnum \<Rightarrow> jsnum" where
  "js_div (Num a) (Num b) =
     (if b = 0 then (if a = 0 then NaN else if 0 < a then PosInf else NegInf)
      else fl (a / b))"
| "js_div NaN _ = NaN"
| "js_div _ NaN = NaN"
| "js_div (Num a) _ = Num 0"
| "js_div a (Num b) = (if negative a = (b < 0) then PosInf else NegInf)"
| "js_div _ _ = NaN"

fun Math_abs :: "jsnum \<Rightarrow> jsnum" where
  "Math_abs (Num a) = Num \<bar>a\<bar>"
| "Math_abs NaN = NaN"
| "Math_abs _ = PosInf"

fun Math_min :: "jsnum \<Rightarrow> jsnum \<Rightarrow> jsnum" where
  "Math_min NaN _ = NaN"
| "Math_min _ NaN = NaN"
| "Math_min a b = (if js_le a b then a else b)"

fun Math_max :: "jsnum \<Rightarrow> jsnum \<Rightarrow> jsnum" where
  "Math_max NaN _ = NaN"
| "Math_max _ NaN = NaN"
| "Math_max a b = (if js_le a b then b else a)"

subsection \<open>The threshold table\<close>

text \<open>An entry of \<open>SENSOR_THRESHOLDS\<close>. The fields \<open>unit\<close>, \<open>name\<close>, \<open>description\<close> and
  \<open>safeRange\<close> are display text that no function of the module reads. The bounds of
  the table are doubles.\<close>

record threshold =
  thr_min :: real
  thr_max :: real

text \<open>
  \<open>SENSOR_THRESHOLDS\<close> is an object literal, and \<open>SENSOR_THRESHOLDS[sensorType]\<close> is an
  ordinary property read: it finds the four own properties, then the members the
  literal inherits from \<open>Object.prototype\<close> (functions, and the prototype object itself
  for \<open>__proto__\<close>; all truthy, none with a \<open>min\<close> or \<open>max\<close>), and is \<open>undefined\<close> for
  every other name.
\<close>

datatype property = Threshold threshold | Inherited | Undefined

definition Object_prototype :: "string list" where
  "Object_prototype =
     [''constructor'', ''hasOwnProperty'', ''isPrototypeOf'', ''propertyIsEnumerable'',
      ''toLocaleString'', ''toString'', ''valueOf'', ''__proto__'',
      ''__defineGetter__'', ''__defineSetter__'', ''__lookupGetter__'', ''__lookupSetter__'']"

definition SENSOR_THRESHOLDS :: "string \<Rightarrow> property" where
  "SENSOR_THRESHOLDS sensorType =
     (if sensorType = ''ph'' then Threshold \<lparr>thr_min = 6.5, thr_max = 8.5\<rparr>
      else if sensorType = ''turbidity'' then Threshold \<lparr>thr_min = 0, thr_max = 5\<rparr>
      else if sensorType = ''tds'' then Threshold \<lparr>thr_min = 0, thr_max = 500\<rparr>
      else if sensorType = ''temperature'' then Threshold \<lparr>thr_min = 15, thr_max = 25\<rparr>
      else if sensorType \<in> set Object_prototype then Inherited
      else Undefined)"

text \<open>\<open>if (!threshold)\<close> and \<open>if (SENSOR_THRESHOLDS[sensor])\<close> test truthiness.\<close>

fun truthy :: "property \<Rightarrow> bool" where
  "truthy Undefined = False"
| "truthy _ = True"

text \<open>\<open>threshold.min\<close> and \<open>threshold.max\<close>: \<open>undefined\<close> on an inherited member, which
  is \<open>NaN\<close> as a number.\<close>

fun prop_min :: "property \<Rightarrow> jsnum" where
  "prop_min (Threshold t) = Num (thr_min t)"
| "prop_min _ = NaN"

fun prop_max :: "property \<Rightarrow> jsnum" where
  "prop_max (Threshold t) = Num (thr_max t)"
| "prop_max _ = NaN"

subsection \<open>Status of one sensor\<close>

datatype water_status = SAFE | WARNING | UNSAFE

text \<open>The body of \<open>getSensorStatus\<close>, with the table it reads as the parameter \<open>table\<close>.
  The literals 0.5 and 5 are doubles; 0.8 is not, and denotes the nearest double,
  \<open>fl 0.8\<close>.\<close>

definition getSensorStatus_on :: "(string \<Rightarrow> property) \<Rightarrow> string \<Rightarrow> real \<Rightarrow> water_status" where
  "getSensorStatus_on table sensorType val =
     (let threshold = table sensorType in
      if \<not> truthy threshold then WARNING
      else if sensorType = ''ph'' then
        (if js_ge (Num val) (prop_min threshold) \<and> js_le (Num val) (prop_max threshold)
         then SAFE
         else if js_ge (Num val) (js_sub (prop_min threshold) (Num 0.5))
               \<and> js_le (Num val) (js_add (prop_max threshold) (Num 0.5))
         then WARNING
         else UNSAFE)
      else if sensorType = ''turbidity'' \<or> sensorType = ''tds'' then
        (if js_le (Num val) (js_mul (prop_max threshold) (fl 0.8)) then SAFE
         else if js_le (Num val) (prop_max threshold) then WARNING
         else UNSAFE)
      else if sensorType = ''temperature'' then
        (if js_ge (Num val) (prop_min threshold) \<and> js_le (Num val) (prop_max threshold)
         then SAFE
         else if js_ge (Num val) (js_sub (prop_min threshold) (Num 5))
               \<and> js_le (Num val) (js_add (prop_max threshold) (Num 5))
         then WARNING
         else UNSAFE)
      else SAFE)"

text \<open>The function on the table as the module defines it.\<close>

definition getSensorStatus :: "string \<Rightarrow> real \<Rightarrow> water_status" where
  "getSensorStatus sensorType val = getSensorStatus_on SENSOR_THRESHOLDS sensorType val"

subsection \<open>Overall water quality\<close>

record water_quality =
  overall :: water_status
  sensors :: "string \<rightharpoonup> water_status"
  isPotable :: bool

text \<open>\<open>statuses[sensor] = status\<close> on the plain object \<open>statuses\<close>, seen as the map of
  its own properties. The name \<open>__proto__\<close> reaches the setter of \<open>Object.prototype\<close>,
  which ignores a string and creates no property.\<close>

definition set_property :: "(string \<rightharpoonup> 'a) \<Rightarrow> string \<Rightarrow> 'a \<Rightarrow> (string \<rightharpoonup> 'a)" where
  "set_property obj k v = (if k = ''__proto__'' then obj else obj(k \<mapsto> v))"

text \<open>The \<open>for ... of Object.entries(sensorData)\<close> loop, over the list of entries, with
  the two variables it updates.\<close>

fun check_each ::
  "(string \<times> real) list \<Rightarrow> (string \<rightharpoonup> water_status) \<Rightarrow> water_status
     \<Rightarrow> (string \<rightharpoonup> water_status) \<times> water_status" where
  "check_each [] statuses overallStatus = (statuses, overallStatus)"
| "check_each ((sensor, val) # rest) statuses overallStatus =
     (if truthy (SENSOR_THRESHOLDS sensor) then
        (let status = getSensorStatus sensor val;
             statuses' = set_property statuses sensor status;
             overallStatus' =
               (if status = UNSAFE then UNSAFE
                else if status = WARNING \<and> overallStatus = SAFE then WARNING
                else overallStatus)
         in check_each rest statuses' overallStatus')
      else check_each rest statuses overallStatus)"

text \<open>\<open>sensorData\<close> is given by its \<open>Object.entries\<close>: the own properties in order, each
  name once, each value a finite number. (The shipped reading set also has the entry
  \<open>lastUpdated\<close>, a date string; its name has no threshold and the loop skips it
  without looking at the value.)\<close>

definition calculateWaterQuality :: "(string \<times> real) list \<Rightarrow> water_quality" where
  "calculateWaterQuality sensorData =
     (case check_each sensorData Map.empty SAFE of
        (statuses, overallStatus) \<Rightarrow>
          \<lparr>overall = overallStatus, sensors = statuses,
           isPotable = (overallStatus = SAFE)\<rparr>)"

subsection \<open>Position in the safe range\<close>

text \<open>The body of \<open>getSafeRangePercentage\<close>, with the table as a parameter. All its
  literals are doubles.\<close>

definition getSafeRangePercentage_on :: "(string \<Rightarrow> property) \<Rightarrow> string \<Rightarrow> real \<Rightarrow> jsnum" where
  "getSafeRangePercentage_on table sensorType val =
     (let threshold = table sensorType in
      if \<not> truthy threshold then Num 50
      else if sensorType = ''ph'' then
        (let range = js_sub (prop_max threshold) (prop_min threshold);
             midpoint = js_add (prop_min threshold) (js_div range (Num 2));
             deviation = Math_abs (js_sub (Num val) midpoint)
         in Math_max (Num 0)
              (Math_min (Num 100)
                 (js_sub (Num 100)
                    (js_mul (js_div deviation (js_div range (Num 2))) (Num 100)))))
      else Math_max (Num 0)
             (Math_min (Num 100) (js_mul (js_div (Num val) (prop_max threshold)) (Num 100))))"

definition getSafeRangePercentage :: "string \<Rightarrow> real \<Rightarrow> jsnum" where
  "getSafeRangePercentage sensorType val =
     getSafeRangePercentage_on SENSOR_THRESHOLDS sensorType val"

subsection \<open>The table as state\<close>

text \<open>
  \<open>SENSOR_THRESHOLDS\<close> is exported and not frozen: any importer can assign to its
  properties, so the table is part of the state of the program, and the two functions
  read it at every call. A state of the program is a record with the table as it
  stands; everything else the program holds is the extension of the record. A call
  takes the state and returns its result with the state it leaves. Neither function
  has an assignment to anything but its own local constants.
\<close>

record program_state =
  thresholds :: "string \<Rightarrow> property"

definition getSensorStatus_call ::
  "string \<Rightarrow> real \<Rightarrow> 'a program_state_scheme \<Rightarrow> water_status \<times> 'a program_state_scheme" where
  "getSensorStatus_call sensorType val s =
     (getSensorStatus_on (thresholds s) sensorType val, s)"

definition getSafeRangePercentage_call ::
  "string \<Rightarrow> real \<Rightarrow> 'a program_state_scheme \<Rightarrow> jsnum \<times> 'a program_state_scheme" where
  "getSafeRangePercentage_call sensorType val s =
     (getSafeRangePercentage_on (thresholds s) sensorType val, s)"

text \<open>A history of calls of the two functions, and the state it leaves.\<close>

datatype call = Classify string real | Position string real

datatype outcome = Status water_status | Percentage jsnum

fun perform :: "call \<Rightarrow> 'a program_state_scheme \<Rightarrow> outcome \<times> 'a program_state_scheme" where
  "perform (Classify sensorType val) s =
     (case getSensorStatus_call sensorType val s of (r, s') \<Rightarrow> (Status r, s'))"
| "perform (Position sensorType val) s =
     (case getSafeRangePercentage_call sensorType val s of (r, s') \<Rightarrow> (Percentage r, s'))"

fun after :: "call list \<Rightarrow> 'a program_state_scheme \<Rightarrow> 'a program_state_scheme" where
  "after [] s = s"
| "after (c # cs) s = after cs (snd (perform c s))"

subsection \<open>The order of severity\<close>

text \<open>The order \<open>Safe < Warning < Unsafe\<close> in which the specification compares
  statuses.\<close>

fun severity :: "water_status \<Rightarrow> nat" where
  "severity SAFE = 0"
| "severity WARNING = 1"
| "severity UNSAFE = 2"

subsection \<open>Vocabulary of the specification\<close>

text \<open>The four kinds of sensor the specification defines.\<close>

definition defined_kind :: "string \<Rightarrow> bool" where
  "defined_kind k \<longleftrightarrow> k = ''ph'' \<or> k = ''turbidity'' \<or> k = ''tds'' \<or> k = ''temperature''"

text \<open>The two positions of the specification, in exact arithmetic. For a kind with
  bounds \<open>lo\<close> and \<open>hi\<close>: \<open>clamp(0, 100, 100 - (|value - midpoint| / (range/2)) * 100)\<close>;
  for a kind with the bound \<open>hi\<close> only: \<open>clamp(0, 100, (value / hi) * 100)\<close>.\<close>

definition two_sided_position :: "real \<Rightarrow> real \<Rightarrow> real \<Rightarrow> real" where
  "two_sided_position lo hi v =
     (let range = hi - lo; midpoint = lo + range / 2
      in max 0 (min 100 (100 - (\<bar>v - midpoint\<bar> / (range / 2)) * 100)))"

definition one_sided_position :: "real \<Rightarrow> real \<Rightarrow> real" where
  "one_sided_position hi v = max 0 (min 100 ((v / hi) * 100))"

text \<open>A percentage in the closed interval from 0 to 100; \<open>NaN\<close> is in no interval.\<close>

definition in_percent_range :: "jsnum \<Rightarrow> bool" where
  "in_percent_range p \<longleftrightarrow> js_le (Num 0) p \<and> js_le p (Num 100)"

text \<open>A number within \<open>d\<close> of the real \<open>x\<close>.\<close>

definition close_to :: "real \<Rightarrow> jsnum \<Rightarrow> real \<Rightarrow> bool" where
  "close_to d p x = (case p of Num r \<Rightarrow> \<bar>r - x\<bar> \<le> d | _ \<Rightarrow> False)"

section \<open>Properties\<close>

subsection \<open>Rounding\<close>

lemma rne_ge_int: "of_int n \<le> x \<Longrightarrow> n \<le> rne x"
proof -
  assume "of_int n \<le> x"
  then have "n \<le> \<lfloor>x\<rfloor>" by (simp add: le_floor_iff)
  moreover have "\<lfloor>x\<rfloor> \<le> rne x" by (simp add: rne_def Let_def)
  ultimately show ?thesis by simp
qed

lemma rne_le_int: "x \<le> of_int n \<Longrightarrow> rne x \<le> n"
proof (cases "x = of_int n")
  case True
  then show ?thesis by (simp add: rne_def Let_def)
next
  case False
  assume "x \<le> of_int n"
  with False have "x < of_int n" by simp
  then have "\<lfloor>x\<rfloor> < n" by (simp add: floor_less_iff)
  moreover have "rne x \<le> \<lfloor>x\<rfloor> + 1" by (simp add: rne_def Let_def)
  ultimately show ?thesis by simp
qed

lemma rne_of_int [simp]: "rne (of_int n) = n"
  by (simp add: rne_def Let_def)

lemma exp_search_lower: "- 1022 \<le> exp_search n y"
  by (induction n) auto

lemma exp_search_upper: "exp_search n y \<le> int n - 1022"
  by (induction n) auto

lemma exp_search_le: "exp_search n y = - 1022 \<or> 2 powi (exp_search n y) \<le> y"
  by (induction n) auto

lemma exp_search_max:
  "- 1022 \<le> e \<Longrightarrow> e \<le> int n - 1022 \<Longrightarrow> 2 powi e \<le> y \<Longrightarrow> e \<le> exp_search n y"
proof (induction n)
  case 0
  then show ?case by simp
next
  case (Suc n)
  show ?case
  proof (cases "2 powi (int n - 1021) \<le> y")
    case True
    with Suc.prems show ?thesis by simp
  next
    case False
    have "e \<noteq> int n - 1021" using False Suc.prems(3) by auto
    with Suc.prems have "e \<le> int n - 1022" by simp
    with Suc.IH Suc.prems False show ?thesis by simp
  qed
qed

lemma exponent_eq:
  assumes "2 powi e \<le> \<bar>x\<bar>" and "\<bar>x\<bar> < 2 powi (e + 1)" and "- 1022 \<le> e" and "e \<le> 1023"
  shows "exponent x = e"
proof -
  let ?r = "exponent x"
  have le: "e \<le> ?r"
    unfolding exponent_def using assms by (intro exp_search_max) auto
  have "?r \<le> e"
  proof (rule ccontr)
    assume "\<not> ?r \<le> e"
    then have gt: "e + 1 \<le> ?r" by simp
    with assms(3) have "?r \<noteq> - 1022" by simp
    then have "2 powi ?r \<le> \<bar>x\<bar>"
      using exp_search_le [of 2045 "\<bar>x\<bar>"] by (simp add: exponent_def)
    moreover have "(2::real) powi (e + 1) \<le> 2 powi ?r"
      using gt by (intro power_int_increasing) auto
    ultimately show False using assms(2) by simp
  qed
  with le show ?thesis by simp
qed

lemma exponent_subnormal:
  assumes "\<bar>x\<bar> < 2 powi (- 1022)"
  shows "exponent x = - 1022"
proof (rule ccontr)
  let ?r = "exponent x"
  assume ne: "?r \<noteq> - 1022"
  then have "2 powi ?r \<le> \<bar>x\<bar>"
    using exp_search_le [of 2045 "\<bar>x\<bar>"] by (simp add: exponent_def)
  moreover have "- 1022 \<le> ?r"
    by (simp add: exponent_def exp_search_lower)
  then have "(2::real) powi (- 1022) \<le> 2 powi ?r"
    by (intro power_int_increasing) auto
  ultimately show False using assms by simp
qed

lemma rne_0 [simp]: "rne 0 = 0"
  by (simp add: rne_def Let_def)

lemma rne_minus: "rne (- x) = - rne x"
proof (cases "x = of_int \<lfloor>x\<rfloor>")
  case True
  then obtain n where "x = of_int n" ..
  then have "- x = of_int (- n)" by simp
  then show ?thesis using \<open>x = of_int n\<close> by (simp only: rne_of_int)
next
  case False
  then have fm: "\<lfloor>- x\<rfloor> = - \<lfloor>x\<rfloor> - 1"
    by (simp add: floor_minus ceiling_altdef)
  show ?thesis
    unfolding rne_def Let_def fm by (auto simp add: algebra_simps)
qed

lemma exponent_minus [simp]: "exponent (- x) = exponent x"
  by (simp add: exponent_def)

lemma exponent_range: "- 1022 \<le> exponent x \<and> exponent x \<le> 1023"
  using exp_search_lower [of 2045 "\<bar>x\<bar>"] exp_search_upper [of 2045 "\<bar>x\<bar>"]
  by (simp add: exponent_def)

lemma overflow_pos: "0 < overflow"
  by (simp add: overflow_def)

lemma pow_split: "(2::real) powi (e + int k) = 2 ^ k * 2 powi e"
  by (simp add: power_int_add)

lemma ulp_pos: "(0::real) < 2 powi e"
  by (rule zero_less_power_int) simp

lemma fl_minus: "fl (- x) = js_neg (fl x)"
proof -
  let ?u = "(2::real) powi (exponent x - 52)"
  let ?r = "of_int (rne (x / ?u)) * ?u"
  have r: "of_int (rne (- x / ?u)) * ?u = - ?r"
    by (simp add: rne_minus)
  show ?thesis
    using overflow_pos unfolding fl_def Let_def exponent_minus r
    by auto
qed

lemma fl_0 [simp]: "fl 0 = Num 0"
  using overflow_pos by (simp add: fl_def Let_def)

text \<open>At or above a positive double, the rounded value is at or above it.\<close>

lemma fl_ge:
  assumes c: "c = of_int m * 2 powi (ec - 52)"
    and lo: "2 powi ec \<le> c" and hi: "c < 2 powi (ec + 1)"
    and ec: "- 1022 \<le> ec" "ec \<le> 1023"
    and x: "c \<le> x"
  shows "fl x = PosInf \<or> (\<exists>r. fl x = Num r \<and> c \<le> r)"
proof -
  let ?e = "exponent x"
  let ?u = "(2::real) powi (?e - 52)"
  let ?r = "of_int (rne (x / ?u)) * ?u"
  have cpos: "0 < c"
    using lo ulp_pos [of ec] by linarith
  with x have xpos: "0 < x" by simp
  have upos: "0 < ?u" by (rule ulp_pos)
  have e_ge: "ec \<le> ?e"
    unfolding exponent_def using ec lo x xpos by (intro exp_search_max) auto
  have x_ge: "2 powi ?e \<le> x"
  proof (cases "?e = - 1022")
    case True
    with e_ge ec have "ec = ?e" by simp
    with lo x show ?thesis by simp
  next
    case False
    then show ?thesis
      using exp_search_le [of 2045 "\<bar>x\<bar>"] xpos by (simp add: exponent_def)
  qed
  have split: "(2::real) powi ?e = 2 ^ 52 * ?u"
    using pow_split [of "?e - 52" 52] by simp
  have "c \<le> ?r"
  proof (cases "?e = ec")
    case True
    have "of_int m \<le> x / ?u"
      using x upos by (simp add: c True pos_le_divide_eq)
    then have "m \<le> rne (x / ?u)" by (rule rne_ge_int)
    then have "of_int m * ?u \<le> ?r"
      using upos by (simp add: mult_right_mono)
    then show ?thesis by (simp add: c True)
  next
    case False
    with e_ge have lt: "ec + 1 \<le> ?e" by simp
    have "of_int (2 ^ 52) \<le> x / ?u"
      using x_ge upos by (simp add: split pos_le_divide_eq)
    then have "2 ^ 52 \<le> rne (x / ?u)" by (rule rne_ge_int)
    then have "real_of_int (2 ^ 52) \<le> real_of_int (rne (x / ?u))"
      by (simp only: of_int_le_iff)
    then have "of_int (2 ^ 52) * ?u \<le> ?r"
      by (rule mult_right_mono [OF _ less_imp_le [OF upos]])
    then have "2 powi ?e \<le> ?r" by (simp add: split)
    moreover have "(2::real) powi (ec + 1) \<le> 2 powi ?e"
      using lt by (intro power_int_increasing) auto
    ultimately show ?thesis using hi by simp
  qed
  with cpos have "\<not> ?r \<le> - overflow"
    using overflow_pos by linarith
  with \<open>c \<le> ?r\<close> show ?thesis
    unfolding fl_def Let_def by simp
qed

lemma fl_le_neg:
  assumes c: "c = of_int m * 2 powi (ec - 52)"
    and lo: "2 powi ec \<le> c" and hi: "c < 2 powi (ec + 1)"
    and ec: "- 1022 \<le> ec" "ec \<le> 1023"
    and x: "x \<le> - c"
  shows "fl x = NegInf \<or> (\<exists>r. fl x = Num r \<and> r \<le> - c)"
proof -
  from x have "c \<le> - x" by simp
  from fl_ge [OF c lo hi ec this] show ?thesis
    unfolding fl_minus by (cases "fl x") auto
qed

lemma fl_nonpos:
  assumes "x \<le> 0"
  shows "fl x = NegInf \<or> (\<exists>r. fl x = Num r \<and> r \<le> 0)"
proof -
  let ?u = "(2::real) powi (exponent x - 52)"
  let ?r = "of_int (rne (x / ?u)) * ?u"
  have upos: "0 < ?u" by (rule ulp_pos)
  have "x / ?u \<le> of_int 0" using assms upos by (simp add: divide_le_0_iff)
  then have "rne (x / ?u) \<le> 0" by (rule rne_le_int)
  then have "?r \<le> 0" using upos by (simp add: mult_le_0_iff)
  then have "\<not> overflow \<le> ?r" using overflow_pos by linarith
  with \<open>?r \<le> 0\<close> show ?thesis unfolding fl_def Let_def by simp
qed

text \<open>Rounding stays within the binade.\<close>

lemma round_bound:
  assumes "\<bar>x\<bar> < 2 powi (e + 1)"
  shows "\<bar>real_of_int (rne (x / 2 powi (e - 52))) * 2 powi (e - 52)\<bar> \<le> 2 powi (e + 1)"
proof -
  let ?u = "(2::real) powi (e - 52)"
  let ?q = "x / ?u"
  have upos: "0 < ?u" by (rule ulp_pos)
  have eq: "e + 1 = (e - 52) + int 53" by simp
  have split: "(2::real) powi (e + 1) = 2 ^ 53 * ?u"
    unfolding eq by (rule pow_split)
  have "\<bar>x\<bar> < 2 ^ 53 * ?u"
    using assms by (simp only: split)
  then have "\<bar>x\<bar> / ?u < 2 ^ 53"
    using upos by (simp add: pos_divide_less_eq)
  then have "\<bar>?q\<bar> < 2 ^ 53"
    using upos by simp
  then have "?q < 2 ^ 53 \<and> - ?q < 2 ^ 53"
    by (simp only: abs_less_iff)
  then have q: "?q \<le> of_int (2 ^ 53)" "of_int (- (2 ^ 53)) \<le> ?q"
    by simp_all
  have "rne ?q \<le> 2 ^ 53" using q(1) by (rule rne_le_int)
  moreover have "- (2 ^ 53) \<le> rne ?q" using q(2) by (rule rne_ge_int)
  ultimately have "\<bar>rne ?q\<bar> \<le> 2 ^ 53" by simp
  then have "real_of_int \<bar>rne ?q\<bar> \<le> real_of_int (2 ^ 53)"
    by (simp only: of_int_le_iff)
  then have "\<bar>real_of_int (rne ?q)\<bar> \<le> 2 ^ 53"
    by simp
  then have "\<bar>real_of_int (rne ?q)\<bar> * ?u \<le> 2 ^ 53 * ?u"
    using upos by (intro mult_right_mono) simp_all
  then show ?thesis
    using upos by (simp add: split abs_mult)
qed

text \<open>Below the top binade no rounding overflows.\<close>

lemma fl_eval:
  assumes "2 powi e \<le> \<bar>x\<bar>" and "\<bar>x\<bar> < 2 powi (e + 1)" and "- 1022 \<le> e" and "e \<le> 1022"
  shows "fl x = Num (of_int (rne (x / 2 powi (e - 52))) * 2 powi (e - 52))"
proof -
  let ?r = "of_int (rne (x / 2 powi (e - 52))) * 2 powi (e - 52) :: real"
  have ex: "exponent x = e"
    using assms by (intro exponent_eq) auto
  have "\<bar>?r\<bar> \<le> 2 powi (e + 1)"
    using assms(2) by (rule round_bound)
  moreover have "(2::real) powi (e + 1) < 2 powi 1024"
    using assms(4) by (intro power_int_strict_increasing) auto
  moreover have "(2::real) powi 1024 = overflow"
    by (simp add: overflow_def)
  ultimately have "\<bar>?r\<bar> < overflow" by linarith
  then have "\<not> overflow \<le> ?r" "\<not> ?r \<le> - overflow" by linarith+
  then show ?thesis
    unfolding fl_def Let_def ex by simp
qed

lemma rne_error: "\<bar>real_of_int (rne q) - q\<bar> \<le> 1 / 2"
proof -
  have "real_of_int \<lfloor>q\<rfloor> \<le> q" "q < real_of_int \<lfloor>q\<rfloor> + 1" by linarith+
  then show ?thesis
    unfolding rne_def Let_def by (auto simp add: abs_le_iff)
qed

lemma exponent_upper: "exponent x < 1023 \<Longrightarrow> \<bar>x\<bar> < 2 powi (exponent x + 1)"
proof (rule ccontr)
  assume e: "exponent x < 1023" and "\<not> \<bar>x\<bar> < 2 powi (exponent x + 1)"
  then have "2 powi (exponent x + 1) \<le> \<bar>x\<bar>" by simp
  then have "exponent x + 1 \<le> exp_search 2045 \<bar>x\<bar>"
    using e exponent_range [of x] by (intro exp_search_max) auto
  then show False by (simp add: exponent_def)
qed

text \<open>The rounding error below a power of two.\<close>

lemma fl_error:
  assumes k: "- 1022 < k" "k \<le> 1023" and x: "\<bar>x\<bar> \<le> 2 powi k"
  shows "\<exists>r. fl x = Num r \<and> \<bar>r - x\<bar> \<le> 2 powi (k - 54) \<and> \<bar>r\<bar> \<le> 2 powi k"
proof -
  let ?e = "exponent x"
  let ?u = "(2::real) powi (?e - 52)"
  let ?q = "x / ?u"
  let ?r = "real_of_int (rne ?q) * ?u"
  have upos: "0 < ?u" by (rule ulp_pos)
  have big: "(2::real) powi k < overflow"
  proof -
    have "(2::real) powi k < 2 powi 1024"
      using k by (intro power_int_strict_increasing) auto
    then show ?thesis by (simp add: overflow_def)
  qed
  have main: "\<bar>?r - x\<bar> \<le> 2 powi (k - 54) \<and> \<bar>?r\<bar> \<le> 2 powi k"
  proof (cases "\<bar>x\<bar> = 2 powi k")
    case True
    have ek: "?e = k"
      using True k by (intro exponent_eq) (auto intro!: power_int_strict_increasing)
    have eq: "k = (k - 52) + int 52" by simp
    have split: "(2::real) powi k = 2 ^ 52 * 2 powi (k - 52)"
      by (subst eq) (rule pow_split)
    have "x = 2 powi k \<or> x = - (2 powi k)" using True by (auto simp add: abs_if split: if_splits)
    then have "?q = of_int (2 ^ 52) \<or> ?q = of_int (- (2 ^ 52))"
      using upos by (auto simp add: ek split)
    then have "real_of_int (rne ?q) = ?q"
      by (elim disjE) (simp_all only: rne_of_int)
    then have "?r = ?q * ?u" by (simp only:)
    also have "\<dots> = x" using upos by simp
    finally have "?r = x" .
    then show ?thesis using True ulp_pos [of "k - 54"] by simp
  next
    case False
    with x have lt: "\<bar>x\<bar> < 2 powi k" by simp
    have e_lt: "?e < k"
    proof (rule ccontr)
      assume "\<not> ?e < k"
      then have ke: "k \<le> ?e" by simp
      with k have "?e \<noteq> - 1022" by simp
      then have "2 powi ?e \<le> \<bar>x\<bar>"
        using exp_search_le [of 2045 "\<bar>x\<bar>"] by (simp add: exponent_def)
      moreover have "(2::real) powi k \<le> 2 powi ?e"
        using ke by (intro power_int_increasing) auto
      ultimately show False using lt by simp
    qed
    with k have "?e < 1023" by simp
    then have "\<bar>x\<bar> < 2 powi (?e + 1)" by (rule exponent_upper)
    then have "\<bar>?r\<bar> \<le> 2 powi (?e + 1)" by (rule round_bound)
    moreover have "(2::real) powi (?e + 1) \<le> 2 powi k"
      using e_lt by (intro power_int_increasing) auto
    ultimately have b: "\<bar>?r\<bar> \<le> 2 powi k" by simp
    have "?r - x = (real_of_int (rne ?q) - ?q) * ?u"
      using upos by (simp add: algebra_simps)
    then have "\<bar>?r - x\<bar> = \<bar>real_of_int (rne ?q) - ?q\<bar> * ?u"
      using upos by (simp add: abs_mult)
    also have "\<dots> \<le> 1 / 2 * ?u"
      using upos rne_error [of ?q] by (intro mult_right_mono) simp_all
    also have "\<dots> = 2 powi (?e - 53)"
    proof -
      have "(2::real) powi ((?e - 53) + int 1) = 2 ^ 1 * 2 powi (?e - 53)"
        by (rule pow_split)
      then show ?thesis by simp
    qed
    also have "\<dots> \<le> 2 powi (k - 54)"
      using e_lt by (intro power_int_increasing) auto
    finally show ?thesis using b by simp
  qed
  then have "\<not> overflow \<le> ?r" "\<not> ?r \<le> - overflow"
    using big by (auto simp add: abs_le_iff)
  then have "fl x = Num ?r"
    unfolding fl_def Let_def by simp
  with main show ?thesis by blast
qed

text \<open>The arithmetic on the constants of the table.\<close>

lemma threshold_arithmetic:
  "js_sub (Num 6.5) (Num 0.5) = Num 6"
  "js_add (Num 8.5) (Num 0.5) = Num 9"
  "js_sub (Num 15) (Num 5) = Num 10"
  "js_add (Num 25) (Num 5) = Num 30"
  "js_sub (Num 8.5) (Num 6.5) = Num 2"
  "js_div (Num 2) (Num 2) = Num 1"
  "js_add (Num 6.5) (Num 1) = Num 7.5"
  by (simp_all add: js_sub_def fl_eval [of 0] fl_eval [of 1] fl_eval [of 2] fl_eval [of 3]
      fl_eval [of 4] rne_def Let_def)

lemma fl_0_8: "fl 0.8 = Num (7205759403792794 / 2 ^ 53)"
  by (simp add: fl_eval [of "-1"] rne_def Let_def)

lemma eighty_percent:
  "js_mul (Num 5) (fl 0.8) = Num 4"
  "js_mul (Num 500) (fl 0.8) = Num 400"
  by (simp_all add: fl_eval [of "-1"] fl_eval [of 2] fl_eval [of 8] rne_def Let_def)

subsection \<open>The functions\<close>

lemma thresholds_known [simp]:
  "SENSOR_THRESHOLDS ''ph'' = Threshold \<lparr>thr_min = 6.5, thr_max = 8.5\<rparr>"
  "SENSOR_THRESHOLDS ''turbidity'' = Threshold \<lparr>thr_min = 0, thr_max = 5\<rparr>"
  "SENSOR_THRESHOLDS ''tds'' = Threshold \<lparr>thr_min = 0, thr_max = 500\<rparr>"
  "SENSOR_THRESHOLDS ''temperature'' = Threshold \<lparr>thr_min = 15, thr_max = 25\<rparr>"
  by (simp_all add: SENSOR_THRESHOLDS_def)

lemma status_ph:
  "getSensorStatus ''ph'' v =
     (if 6.5 \<le> v \<and> v \<le> 8.5 then SAFE else if 6 \<le> v \<and> v \<le> 9 then WARNING else UNSAFE)"
  by (simp add: getSensorStatus_def getSensorStatus_on_def js_ge_def js_sub_def Let_def
      fl_eval [of "-1"] fl_eval [of 2] fl_eval [of 3] fl_eval [of 4] fl_eval [of 8] rne_def)

lemma status_turbidity:
  "getSensorStatus ''turbidity'' v =
     (if v \<le> 4 then SAFE else if v \<le> 5 then WARNING else UNSAFE)"
  by (simp add: getSensorStatus_def getSensorStatus_on_def js_ge_def js_sub_def Let_def
      fl_eval [of "-1"] fl_eval [of 2] fl_eval [of 3] fl_eval [of 4] fl_eval [of 8] rne_def)

lemma status_tds:
  "getSensorStatus ''tds'' v =
     (if v \<le> 400 then SAFE else if v \<le> 500 then WARNING else UNSAFE)"
  by (simp add: getSensorStatus_def getSensorStatus_on_def js_ge_def js_sub_def Let_def
      fl_eval [of "-1"] fl_eval [of 2] fl_eval [of 3] fl_eval [of 4] fl_eval [of 8] rne_def)

lemma status_temperature:
  "getSensorStatus ''temperature'' v =
     (if 15 \<le> v \<and> v \<le> 25 then SAFE else if 10 \<le> v \<and> v \<le> 30 then WARNING else UNSAFE)"
  by (simp add: getSensorStatus_def getSensorStatus_on_def js_ge_def js_sub_def Let_def
      fl_eval [of "-1"] fl_eval [of 2] fl_eval [of 3] fl_eval [of 4] fl_eval [of 8] rne_def)


lemma inherited_not_defined: "k \<in> set Object_prototype \<Longrightarrow> \<not> defined_kind k"
  by (auto simp add: Object_prototype_def defined_kind_def)

lemma lookup_cases:
  "SENSOR_THRESHOLDS k =
     (if defined_kind k then SENSOR_THRESHOLDS k
      else if k \<in> set Object_prototype then Inherited else Undefined)"
  by (simp add: SENSOR_THRESHOLDS_def defined_kind_def)

lemma truthy_lookup:
  "truthy (SENSOR_THRESHOLDS k) \<longleftrightarrow> defined_kind k \<or> k \<in> set Object_prototype"
  by (auto simp add: SENSOR_THRESHOLDS_def defined_kind_def)

lemma status_undefined:
  "\<not> defined_kind k \<Longrightarrow> k \<notin> set Object_prototype \<Longrightarrow> getSensorStatus k v = WARNING"
  by (simp add: getSensorStatus_def getSensorStatus_on_def truthy_lookup)

lemma status_inherited:
  "k \<in> set Object_prototype \<Longrightarrow> getSensorStatus k v = SAFE"
  using inherited_not_defined [of k]
  by (simp add: getSensorStatus_def getSensorStatus_on_def truthy_lookup defined_kind_def)

lemma percentage_undefined:
  "\<not> defined_kind k \<Longrightarrow> k \<notin> set Object_prototype \<Longrightarrow> getSafeRangePercentage k v = Num 50"
  by (simp add: getSafeRangePercentage_def getSafeRangePercentage_on_def truthy_lookup)

lemma percentage_inherited:
  "k \<in> set Object_prototype \<Longrightarrow> getSafeRangePercentage k v = NaN"
  using inherited_not_defined [of k] lookup_cases [of k]
  by (simp add: getSafeRangePercentage_def getSafeRangePercentage_on_def truthy_lookup
      defined_kind_def Let_def)

lemma check_each_sensors:
  assumes "distinct (map fst xs)"
  shows "fst (check_each xs st ov) k =
     (case map_of xs k of
        Some v \<Rightarrow> if truthy (SENSOR_THRESHOLDS k) \<and> k \<noteq> ''__proto__''
                  then Some (getSensorStatus k v) else st k
      | None \<Rightarrow> st k)"
  using assms
proof (induction xs arbitrary: st ov)
  case Nil
  then show ?case by simp
next
  case (Cons x xs)
  obtain s v where x: "x = (s, v)" by (cases x)
  from Cons.prems have d: "distinct (map fst xs)" and s: "s \<notin> fst ` set xs"
    by (simp_all add: x)
  from s have none: "map_of xs s = None"
    by (simp add: map_of_eq_None_iff)
  let ?st = "set_property st s (getSensorStatus s v)"
  let ?ov = "if getSensorStatus s v = UNSAFE then UNSAFE
             else if getSensorStatus s v = WARNING \<and> ov = SAFE then WARNING else ov"
  have step: "check_each (x # xs) st ov =
      (if truthy (SENSOR_THRESHOLDS s) then check_each xs ?st ?ov else check_each xs st ov)"
    by (simp add: x Let_def)
  have IH: "fst (check_each xs st' ov') k =
     (case map_of xs k of
        Some v \<Rightarrow> if truthy (SENSOR_THRESHOLDS k) \<and> k \<noteq> ''__proto__''
                  then Some (getSensorStatus k v) else st' k
      | None \<Rightarrow> st' k)" for st' ov'
    by (rule Cons.IH [OF d])
  show ?case
  proof (cases "k = s")
    case True
    show ?thesis
      unfolding step True using none IH [unfolded True]
      by (auto simp add: x set_property_def)
  next
    case False
    then show ?thesis
      unfolding step by (auto simp add: x IH set_property_def split: option.split)
  qed
qed

lemma check_each_overall_mono:
  "severity ov \<le> severity (snd (check_each xs st ov))"
proof (induction xs arbitrary: st ov)
  case Nil
  then show ?case by simp
next
  case (Cons x xs)
  obtain s v where x: "x = (s, v)" by (cases x)
  show ?case
  proof (cases "truthy (SENSOR_THRESHOLDS s)")
    case False
    then show ?thesis by (simp add: x Cons.IH)
  next
    case True
    let ?ov = "if getSensorStatus s v = UNSAFE then UNSAFE
               else if getSensorStatus s v = WARNING \<and> ov = SAFE then WARNING else ov"
    have "severity ov \<le> severity ?ov"
      by (cases ov) auto
    also have "\<dots> \<le> severity (snd (check_each xs (set_property st s (getSensorStatus s v)) ?ov))"
      by (rule Cons.IH)
    finally show ?thesis using True by (simp add: x Let_def)
  qed
qed

lemma check_each_overall_upper:
  "(k, v) \<in> set xs \<Longrightarrow> truthy (SENSOR_THRESHOLDS k) \<Longrightarrow>
     severity (getSensorStatus k v) \<le> severity (snd (check_each xs st ov))"
proof (induction xs arbitrary: st ov)
  case Nil
  then show ?case by simp
next
  case (Cons x xs)
  obtain s w where x: "x = (s, w)" by (cases x)
  let ?ov = "if getSensorStatus s w = UNSAFE then UNSAFE
             else if getSensorStatus s w = WARNING \<and> ov = SAFE then WARNING else ov"
  let ?st = "set_property st s (getSensorStatus s w)"
  show ?case
  proof (cases "(k, v) = (s, w)")
    case True
    have "severity (getSensorStatus s w) \<le> severity ?ov"
      by (cases "getSensorStatus s w"; cases ov) auto
    also have "\<dots> \<le> severity (snd (check_each xs ?st ?ov))"
      by (rule check_each_overall_mono)
    finally show ?thesis using True Cons.prems(2) by (simp add: x Let_def)
  next
    case False
    with Cons.prems(1) have "(k, v) \<in> set xs" by (auto simp add: x)
    then show ?thesis
      using Cons.IH Cons.prems(2) by (simp add: x Let_def)
  qed
qed

lemma check_each_overall_attained:
  "snd (check_each xs st ov) = ov \<or>
   (\<exists>(k, v) \<in> set xs. truthy (SENSOR_THRESHOLDS k) \<and>
      getSensorStatus k v = snd (check_each xs st ov))"
proof (induction xs arbitrary: st ov)
  case Nil
  then show ?case by simp
next
  case (Cons x xs)
  obtain s w where x: "x = (s, w)" by (cases x)
  let ?ov = "if getSensorStatus s w = UNSAFE then UNSAFE
             else if getSensorStatus s w = WARNING \<and> ov = SAFE then WARNING else ov"
  let ?st = "set_property st s (getSensorStatus s w)"
  show ?case
  proof (cases "truthy (SENSOR_THRESHOLDS s)")
    case False
    then show ?thesis using Cons.IH [of st ov] by (auto simp add: x)
  next
    case True
    have step: "check_each (x # xs) st ov = check_each xs ?st ?ov"
      using True by (simp add: x Let_def)
    have ov: "?ov = ov \<or> getSensorStatus s w = ?ov"
      by auto
    from Cons.IH [of ?st ?ov] ov True show ?thesis
      unfolding step by (auto simp add: x)
  qed
qed

lemma fl_not_NaN [simp]: "fl x \<noteq> NaN"
  by (simp add: fl_def Let_def)

lemma fl_ge_1: "1 \<le> x \<Longrightarrow> js_le (Num 1) (fl x)"
  using fl_ge [of 1 "2 ^ 52" 0 x] by auto

lemma fl_ge_100: "100 \<le> x \<Longrightarrow> js_le (Num 100) (fl x)"
  using fl_ge [of 100 "100 * 2 ^ 46" 6 x] by auto

lemma fl_le_minus_1: "x \<le> - 1 \<Longrightarrow> js_le (fl x) (Num (- 1))"
  using fl_le_neg [of 1 "2 ^ 52" 0 x] by auto

lemma fl_le_0: "x \<le> 0 \<Longrightarrow> js_le (fl x) (Num 0)"
  using fl_nonpos [of x] by auto

lemma clamp_high:
  "js_le (Num 100) b \<Longrightarrow> Math_max (Num 0) (Math_min (Num 100) b) = Num 100"
  by (cases b) auto

lemma clamp_low:
  "js_le b (Num 0) \<Longrightarrow> Math_max (Num 0) (Math_min (Num 100) b) = Num 0"
  by (cases b) auto

lemma clamp_Num:
  "Math_max (Num 0) (Math_min (Num 100) (Num r)) = Num (max 0 (min 100 r))"
  by auto

lemma clamp_range:
  "b \<noteq> NaN \<Longrightarrow> in_percent_range (Math_max (Num 0) (Math_min (Num 100) b))"
  by (cases b) (auto simp add: in_percent_range_def)

lemma times_100_high: "js_le (Num 1) a \<Longrightarrow> js_le (Num 100) (js_mul a (Num 100))"
  by (cases a) (auto intro: fl_ge_100)

lemma times_100_low: "js_le a (Num 0) \<Longrightarrow> js_le (js_mul a (Num 100)) (Num 0)"
  by (cases a) (auto intro: fl_le_0 simp add: mult_le_0_iff)

lemma times_100_not_NaN: "a \<noteq> NaN \<Longrightarrow> js_mul a (Num 100) \<noteq> NaN"
  by (cases a) auto

text \<open>The branch for the kinds with an upper bound only, for a bound \<open>m > 0\<close>.\<close>

lemma one_sided_above:
  assumes "0 < m" "m \<le> v"
  shows "Math_max (Num 0) (Math_min (Num 100) (js_mul (js_div (Num v) (Num m)) (Num 100)))
         = Num 100"
proof -
  have "1 \<le> v / m" using assms by simp
  then have "js_le (Num 1) (js_div (Num v) (Num m))"
    using assms(1) by (simp add: fl_ge_1)
  then show ?thesis by (intro clamp_high times_100_high)
qed

lemma one_sided_below:
  assumes "0 < m" "v \<le> 0"
  shows "Math_max (Num 0) (Math_min (Num 100) (js_mul (js_div (Num v) (Num m)) (Num 100)))
         = Num 0"
proof -
  have "v / m \<le> 0" using assms by (simp add: divide_le_0_iff)
  then have "js_le (js_div (Num v) (Num m)) (Num 0)"
    using assms(1) by (simp add: fl_le_0)
  then show ?thesis by (intro clamp_low times_100_low)
qed

lemma clamp_lipschitz:
  "\<bar>max 0 (min 100 a) - max 0 (min 100 b)\<bar> \<le> \<bar>a - (b::real)\<bar>"
  by (auto simp add: max_def min_def abs_le_iff)

lemma clamp_close:
  "\<bar>a - b\<bar> \<le> d \<Longrightarrow> \<bar>max 0 (min 100 a) - max 0 (min 100 b)\<bar> \<le> (d::real)"
  by (rule order_trans [OF clamp_lipschitz])

lemma close_trans:
  "\<bar>a - b\<bar> \<le> d1 \<Longrightarrow> \<bar>b - c\<bar> \<le> d2 \<Longrightarrow> \<bar>a - (c::real)\<bar> \<le> d1 + d2"
  by linarith

lemma times_100_close:
  "\<bar>a - b\<bar> \<le> d \<Longrightarrow> \<bar>a * 100 - b * 100\<bar> \<le> 100 * (d::real)"
  by linarith

lemma from_100_close:
  "\<bar>a - b\<bar> \<le> d \<Longrightarrow> \<bar>(100 - a) - (100 - b)\<bar> \<le> (d::real)"
  by linarith

lemma abs_close:
  "\<bar>a - b\<bar> \<le> d \<Longrightarrow> \<bar>\<bar>a\<bar> - \<bar>b\<bar>\<bar> \<le> (d::real)"
  by (rule order_trans [OF abs_triangle_ineq3])

lemma one_sided_inside:
  assumes "0 < m" "0 \<le> v" "v \<le> m"
  shows "close_to (1 / 10 ^ 13)
     (Math_max (Num 0) (Math_min (Num 100) (js_mul (js_div (Num v) (Num m)) (Num 100))))
     (max 0 (min 100 ((v / m) * 100)))"
proof -
  have "\<bar>v / m\<bar> \<le> 2 powi 0" using assms by simp
  from fl_error [OF _ _ this]
  obtain r1 where r1: "fl (v / m) = Num r1" "\<bar>r1 - v / m\<bar> \<le> 2 powi (0 - 54)" "\<bar>r1\<bar> \<le> 2 powi 0"
    by auto
  have "\<bar>r1 * 100\<bar> \<le> 2 powi 7" using r1(3) by (simp add: abs_mult)
  from fl_error [OF _ _ this]
  obtain r2 where r2: "fl (r1 * 100) = Num r2" "\<bar>r2 - r1 * 100\<bar> \<le> 2 powi (7 - 54)"
    by auto
  have val: "Math_max (Num 0) (Math_min (Num 100) (js_mul (js_div (Num v) (Num m)) (Num 100)))
      = Num (max 0 (min 100 r2))"
    using assms(1) by (simp add: r1 r2 del: Math_max.simps Math_min.simps add: clamp_Num)
  have "\<bar>r2 - (v / m) * 100\<bar> \<le> 2 powi (7 - 54) + 100 * 2 powi (0 - 54)"
    by (rule close_trans [OF r2(2) times_100_close [OF r1(2)]])
  also have "\<dots> \<le> 1 / 10 ^ 13" by simp
  finally have "\<bar>max 0 (min 100 r2) - max 0 (min 100 ((v / m) * 100))\<bar> \<le> 1 / 10 ^ 13"
    by (rule clamp_close)
  then show ?thesis unfolding val by (simp only: close_to_def jsnum.case)
qed

lemma one_sided_close:
  assumes "0 < m"
  shows "close_to (1 / 10 ^ 13)
     (Math_max (Num 0) (Math_min (Num 100) (js_mul (js_div (Num v) (Num m)) (Num 100))))
     (max 0 (min 100 ((v / m) * 100)))"
proof -
  consider "v \<le> 0" | "m \<le> v" | "0 \<le> v" "v \<le> m" by linarith
  then show ?thesis
  proof cases
    case 1
    then have "v / m * 100 \<le> 0" using assms by (simp add: divide_le_0_iff mult_le_0_iff)
    then have "max 0 (min 100 ((v / m) * 100)) = 0" by simp
    then show ?thesis
      by (simp only: one_sided_below [OF assms 1]) (simp add: close_to_def)
  next
    case 2
    then have "100 \<le> v / m * 100" using assms by (simp add: pos_le_divide_eq)
    then have "max 0 (min 100 ((v / m) * 100)) = 100" by simp
    then show ?thesis
      by (simp only: one_sided_above [OF assms 2]) (simp add: close_to_def)
  next
    case 3
    then show ?thesis by (intro one_sided_inside assms)
  qed
qed


text \<open>The branch for ph, from the deviation on.\<close>

lemma two_sided_far:
  assumes "js_le (Num 1) d"
  shows "Math_max (Num 0) (Math_min (Num 100)
           (js_sub (Num 100) (js_mul (js_div d (Num 1)) (Num 100)))) = Num 0"
proof -
  have "js_le (Num 1) (js_div d (Num 1))"
    using assms by (cases d) (auto intro: fl_ge_1)
  then have "js_le (Num 100) (js_mul (js_div d (Num 1)) (Num 100))"
    by (rule times_100_high)
  then have "js_le (js_sub (Num 100) (js_mul (js_div d (Num 1)) (Num 100))) (Num 0)"
    by (cases "js_mul (js_div d (Num 1)) (Num 100)") (auto simp add: js_sub_def intro: fl_le_0)
  then show ?thesis by (rule clamp_low)
qed

lemma two_sided_near:
  assumes "0 \<le> r" "r \<le> 1"
  shows "close_to (2 powi (8 - 54) + (2 powi (7 - 54) + 100 * 2 powi (0 - 54)))
     (Math_max (Num 0) (Math_min (Num 100)
           (js_sub (Num 100) (js_mul (js_div (Num r) (Num 1)) (Num 100)))))
     (max 0 (min 100 (100 - r * 100)))"
proof -
  have "\<bar>r\<bar> \<le> 2 powi 0" using assms by simp
  from fl_error [OF _ _ this]
  obtain r1 where r1: "fl r = Num r1" "\<bar>r1 - r\<bar> \<le> 2 powi (0 - 54)" "\<bar>r1\<bar> \<le> 2 powi 0"
    by auto
  have "\<bar>r1 * 100\<bar> \<le> 2 powi 7" using r1(3) by (simp add: abs_mult)
  from fl_error [OF _ _ this]
  obtain r2 where r2: "fl (r1 * 100) = Num r2" "\<bar>r2 - r1 * 100\<bar> \<le> 2 powi (7 - 54)"
      "\<bar>r2\<bar> \<le> 2 powi 7"
    by auto
  have "\<bar>100 - r2\<bar> \<le> 2 powi 8" using r2(3) by (simp add: abs_le_iff)
  from fl_error [OF _ _ this]
  obtain r3 where r3: "fl (100 - r2) = Num r3" "\<bar>r3 - (100 - r2)\<bar> \<le> 2 powi (8 - 54)"
    by auto
  have val: "Math_max (Num 0) (Math_min (Num 100)
           (js_sub (Num 100) (js_mul (js_div (Num r) (Num 1)) (Num 100))))
      = Num (max 0 (min 100 r3))"
    using r1(1) r2(1) r3(1)
    by (simp add: js_sub_def del: Math_max.simps Math_min.simps add: clamp_Num)
  have "\<bar>r2 - r * 100\<bar> \<le> 2 powi (7 - 54) + 100 * 2 powi (0 - 54)"
    by (rule close_trans [OF r2(2) times_100_close [OF r1(2)]])
  then have "\<bar>(100 - r2) - (100 - r * 100)\<bar> \<le> 2 powi (7 - 54) + 100 * 2 powi (0 - 54)"
    by (rule from_100_close)
  then have "\<bar>r3 - (100 - r * 100)\<bar>
      \<le> 2 powi (8 - 54) + (2 powi (7 - 54) + 100 * 2 powi (0 - 54))"
    by (rule close_trans [OF r3(2)])
  then have "\<bar>max 0 (min 100 r3) - max 0 (min 100 (100 - r * 100))\<bar>
      \<le> 2 powi (8 - 54) + (2 powi (7 - 54) + 100 * 2 powi (0 - 54))"
    by (rule clamp_close)
  then show ?thesis unfolding val by (simp only: close_to_def jsnum.case)
qed

lemma percentage_ph_unfold:
  "getSafeRangePercentage ''ph'' v =
     Math_max (Num 0) (Math_min (Num 100)
       (js_sub (Num 100)
          (js_mul (js_div (Math_abs (fl (v - 7.5))) (Num 1)) (Num 100))))"
  by (simp add: getSafeRangePercentage_def getSafeRangePercentage_on_def Let_def js_sub_def
      fl_eval [of 0] fl_eval [of 1] fl_eval [of 2] rne_def
      del: Math_max.simps Math_min.simps)

lemma percentage_ph_far:
  assumes "v \<le> 6.5 \<or> 8.5 \<le> v"
  shows "getSafeRangePercentage ''ph'' v = Num 0"
proof -
  have "js_le (Num 1) (Math_abs (fl (v - 7.5)))"
  proof (cases "8.5 \<le> v")
    case True
    then have "js_le (Num 1) (fl (v - 7.5))" by (intro fl_ge_1) simp
    then show ?thesis by (cases "fl (v - 7.5)") auto
  next
    case False
    with assms have "v - 7.5 \<le> - 1" by simp
    then have "js_le (fl (v - 7.5)) (Num (- 1))" by (rule fl_le_minus_1)
    then show ?thesis by (cases "fl (v - 7.5)") auto
  qed
  then show ?thesis unfolding percentage_ph_unfold by (rule two_sided_far)
qed

lemma percentage_ph_close:
  "close_to (1 / 10 ^ 13) (getSafeRangePercentage ''ph'' v)
     (max 0 (min 100 (100 - (\<bar>v - 7.5\<bar> / 1) * 100)))"
proof (cases "v \<le> 6.5 \<or> 8.5 \<le> v")
  case True
  then have "100 - (\<bar>v - 7.5\<bar> / 1) * 100 \<le> 0" by auto
  then have "max 0 (min 100 (100 - (\<bar>v - 7.5\<bar> / 1) * 100)) = 0" by simp
  then show ?thesis
    by (simp only: percentage_ph_far [OF True]) (simp add: close_to_def)
next
  case False
  then have "\<bar>v - 7.5\<bar> \<le> 2 powi 0" by auto
  from fl_error [OF _ _ this]
  obtain r0 where r0: "fl (v - 7.5) = Num r0" "\<bar>r0 - (v - 7.5)\<bar> \<le> 2 powi (0 - 54)"
      "\<bar>r0\<bar> \<le> 2 powi 0"
    by auto
  let ?d = "2 powi (8 - 54) + (2 powi (7 - 54) + 100 * 2 powi (0 - 54)) :: real"
  have "0 \<le> \<bar>r0\<bar>" "\<bar>r0\<bar> \<le> 1" using r0(3) by simp_all
  from two_sided_near [OF this]
  have "close_to ?d (getSafeRangePercentage ''ph'' v) (max 0 (min 100 (100 - \<bar>r0\<bar> * 100)))"
    unfolding percentage_ph_unfold r0(1) Math_abs.simps .
  then obtain p where p: "getSafeRangePercentage ''ph'' v = Num p"
      "\<bar>p - max 0 (min 100 (100 - \<bar>r0\<bar> * 100))\<bar> \<le> ?d"
    by (cases "getSafeRangePercentage ''ph'' v") (simp_all only: close_to_def jsnum.case)
  have "\<bar>\<bar>r0\<bar> - \<bar>v - 7.5\<bar>\<bar> \<le> 2 powi (0 - 54)"
    using r0(2) by (rule abs_close)
  then have "\<bar>\<bar>r0\<bar> * 100 - \<bar>v - 7.5\<bar> * 100\<bar> \<le> 100 * 2 powi (0 - 54)"
    by (rule times_100_close)
  then have "\<bar>(100 - \<bar>r0\<bar> * 100) - (100 - \<bar>v - 7.5\<bar> * 100)\<bar> \<le> 100 * 2 powi (0 - 54)"
    by (rule from_100_close)
  then have "\<bar>max 0 (min 100 (100 - \<bar>r0\<bar> * 100)) - max 0 (min 100 (100 - \<bar>v - 7.5\<bar> * 100))\<bar>
      \<le> 100 * 2 powi (0 - 54)"
    by (rule clamp_close)
  from close_trans [OF p(2) this]
  have "\<bar>p - max 0 (min 100 (100 - \<bar>v - 7.5\<bar> * 100))\<bar> \<le> ?d + 100 * 2 powi (0 - 54)" .
  also have "\<dots> \<le> 1 / 10 ^ 13" by simp
  finally have "\<bar>p - max 0 (min 100 (100 - (\<bar>v - 7.5\<bar> / 1) * 100))\<bar> \<le> 1 / 10 ^ 13"
    by (simp only: div_by_1)
  then show ?thesis by (simp only: p(1) close_to_def jsnum.case)
qed

lemma percentage_max_only_unfold:
  "getSafeRangePercentage ''turbidity'' v =
     Math_max (Num 0) (Math_min (Num 100) (js_mul (js_div (Num v) (Num 5)) (Num 100)))"
  "getSafeRangePercentage ''tds'' v =
     Math_max (Num 0) (Math_min (Num 100) (js_mul (js_div (Num v) (Num 500)) (Num 100)))"
  "getSafeRangePercentage ''temperature'' v =
     Math_max (Num 0) (Math_min (Num 100) (js_mul (js_div (Num v) (Num 25)) (Num 100)))"
  by (simp_all add: getSafeRangePercentage_def getSafeRangePercentage_on_def Let_def
      del: Math_max.simps Math_min.simps js_div.simps(1) js_mul.simps(1))

text \<open>The shipped readings: for the ph reading written \<open>7.2\<close> the function returns
  \<open>70.00000000000001\<close>, for the turbidity reading \<open>2.5\<close> it returns 50.\<close>

lemma percentage_of_shipped_readings:
  "getSafeRangePercentage ''ph'' (8106479329266893 / 2 ^ 50) = Num (70 + 1 / 2 ^ 46)"
  "getSafeRangePercentage ''turbidity'' 2.5 = Num 50"
  by (simp_all add: getSafeRangePercentage_def getSafeRangePercentage_on_def Let_def js_sub_def
      fl_eval [of "-2"] fl_eval [of "-1"] fl_eval [of 0] fl_eval [of 1] fl_eval [of 2]
      fl_eval [of 4] fl_eval [of 5] fl_eval [of 6] rne_def)

text \<open>Away from the names inherited from \<open>Object.prototype\<close>, the percentage is a
  number between 0 and 100.\<close>

lemma percentage_in_range:
  assumes "k \<notin> set Object_prototype"
  shows "in_percent_range (getSafeRangePercentage k v)"
proof (cases "defined_kind k")
  case False
  with assms show ?thesis
    by (simp add: percentage_undefined in_percent_range_def)
next
  case True
  have one: "in_percent_range
      (Math_max (Num 0) (Math_min (Num 100) (js_mul (js_div (Num v) (Num m)) (Num 100))))"
    if "m \<noteq> 0" for m
    using that by (intro clamp_range times_100_not_NaN) simp
  have two: "in_percent_range (getSafeRangePercentage ''ph'' v)"
  proof -
    have "js_div (Math_abs (fl (v - 7.5))) (Num 1) \<noteq> NaN"
      by (cases "fl (v - 7.5)") simp_all
    then have "js_mul (js_div (Math_abs (fl (v - 7.5))) (Num 1)) (Num 100) \<noteq> NaN"
      by (rule times_100_not_NaN)
    then have "js_sub (Num 100) (js_mul (js_div (Math_abs (fl (v - 7.5))) (Num 1)) (Num 100))
        \<noteq> NaN"
      by (cases "js_mul (js_div (Math_abs (fl (v - 7.5))) (Num 1)) (Num 100)")
        (simp_all add: js_sub_def)
    then show ?thesis unfolding percentage_ph_unfold by (rule clamp_range)
  qed
  from True consider "k = ''ph''" | "k = ''turbidity''" | "k = ''tds''" | "k = ''temperature''"
    by (auto simp add: defined_kind_def)
  then show ?thesis
  proof cases
    case 1
    then show ?thesis using two by simp
  next
    case 2
    show ?thesis unfolding 2 percentage_max_only_unfold by (rule one) simp
  next
    case 3
    show ?thesis unfolding 3 percentage_max_only_unfold by (rule one) simp
  next
    case 4
    show ?thesis unfolding 4 percentage_max_only_unfold by (rule one) simp
  qed
qed

text \<open>Calls leave the state as it is.\<close>

lemma perform_state [simp]: "snd (perform c s) = s"
  by (cases c) (simp_all add: getSensorStatus_call_def getSafeRangePercentage_call_def)

lemma after_state [simp]: "after history s = s"
  by (induction history arbitrary: s) simp_all

text \<open>The table is read: after \<open>SENSOR_THRESHOLDS.ph.max = 9\<close> the same call has
  another result.\<close>

lemma result_depends_on_table:
  "fst (getSensorStatus_call ''ph'' 8.75 \<lparr>thresholds = SENSOR_THRESHOLDS\<rparr>) = WARNING"
  "fst (getSensorStatus_call ''ph'' 8.75
     \<lparr>thresholds = SENSOR_THRESHOLDS(''ph'' := Threshold \<lparr>thr_min = 6.5, thr_max = 9\<rparr>)\<rparr>) = SAFE"
  by (simp_all add: getSensorStatus_call_def getSensorStatus_on_def js_ge_def js_sub_def Let_def
      fl_eval [of 2] fl_eval [of 3] rne_def)

text \<open>What \<open>calculateWaterQuality\<close> returns for entries with distinct names: the map of
  statuses, and the overall status as the most severe status of a classified entry.\<close>

lemma sensors_check_each:
  "sensors (calculateWaterQuality xs) = fst (check_each xs Map.empty SAFE)"
  by (simp add: calculateWaterQuality_def split: prod.split)

lemma overall_check_each:
  "overall (calculateWaterQuality xs) = snd (check_each xs Map.empty SAFE)"
  by (simp add: calculateWaterQuality_def split: prod.split)

lemma calculateWaterQuality_sensors:
  assumes "distinct (map fst xs)"
  shows "sensors (calculateWaterQuality xs) k =
     (case map_of xs k of
        Some v \<Rightarrow> if truthy (SENSOR_THRESHOLDS k) \<and> k \<noteq> ''__proto__''
                  then Some (getSensorStatus k v) else None
      | None \<Rightarrow> None)"
  using check_each_sensors [OF assms, of Map.empty SAFE k]
  by (simp add: sensors_check_each)

lemma calculateWaterQuality_sensors_plain:
  assumes "distinct (map fst xs)" and "k \<notin> set Object_prototype"
  shows "sensors (calculateWaterQuality xs) k =
     (if defined_kind k then map_option (getSensorStatus k) (map_of xs k) else None)"
  using assms(2)
  by (simp add: calculateWaterQuality_sensors [OF assms(1)] truthy_lookup
      Object_prototype_def split: option.split)

lemma calculateWaterQuality_overall_upper:
  assumes "(k, v) \<in> set xs" and "defined_kind k"
  shows "severity (getSensorStatus k v) \<le> severity (overall (calculateWaterQuality xs))"
  using check_each_overall_upper [OF assms(1), of Map.empty SAFE] assms(2)
  by (simp add: overall_check_each truthy_lookup)

lemma calculateWaterQuality_overall_attained:
  "overall (calculateWaterQuality xs) = SAFE \<or>
   (\<exists>(k, v) \<in> set xs. defined_kind k \<and>
      getSensorStatus k v = overall (calculateWaterQuality xs))"
proof (cases "overall (calculateWaterQuality xs) = SAFE")
  case True
  then show ?thesis by simp
next
  case False
  note ov = overall_check_each [of xs]
  from check_each_overall_attained [of xs Map.empty SAFE] False
  obtain k v where kv: "(k, v) \<in> set xs" "truthy (SENSOR_THRESHOLDS k)"
      "getSensorStatus k v = overall (calculateWaterQuality xs)"
    unfolding ov by auto
  from kv(3) False have "getSensorStatus k v \<noteq> SAFE" by simp
  with kv(2) have "defined_kind k"
    using status_inherited [of k v] by (auto simp add: truthy_lookup)
  with kv show ?thesis by auto
qed

lemma calculateWaterQuality_isPotable:
  "isPotable (calculateWaterQuality xs) \<longleftrightarrow> overall (calculateWaterQuality xs) = SAFE"
  by (simp add: calculateWaterQuality_def split: prod.split)

section \<open>The claims\<close>

text \<open>
  C1. For every finite value, \<open>getSensorStatus\<close> follows the threshold rules of each
  family. For ph (min 6.5, max 8.5, slack 0.5) and temperature (min 15, max 25, slack 5):
  Safe exactly when min \<le> value \<le> max, Warning exactly when
  min - slack \<le> value \<le> max + slack and the value is not Safe, Unsafe otherwise. For
  turbidity (max 5) and tds (max 500): Safe exactly when value \<le> 0.8 * max, Warning
  exactly when 0.8 * max < value \<le> max, Unsafe exactly when value > max.
\<close>

theorem classify_follows_thresholds:
  "(getSensorStatus ''ph'' v = SAFE \<longleftrightarrow> 6.5 \<le> v \<and> v \<le> 8.5) \<and>
   (getSensorStatus ''ph'' v = WARNING \<longleftrightarrow>
      (6.5 - 0.5 \<le> v \<and> v \<le> 8.5 + 0.5) \<and> \<not> (6.5 \<le> v \<and> v \<le> 8.5)) \<and>
   (getSensorStatus ''ph'' v = UNSAFE \<longleftrightarrow>
      \<not> (6.5 \<le> v \<and> v \<le> 8.5) \<and> \<not> (6.5 - 0.5 \<le> v \<and> v \<le> 8.5 + 0.5)) \<and>
   (getSensorStatus ''temperature'' v = SAFE \<longleftrightarrow> 15 \<le> v \<and> v \<le> 25) \<and>
   (getSensorStatus ''temperature'' v = WARNING \<longleftrightarrow>
      (15 - 5.0 \<le> v \<and> v \<le> 25 + 5.0) \<and> \<not> (15 \<le> v \<and> v \<le> 25)) \<and>
   (getSensorStatus ''temperature'' v = UNSAFE \<longleftrightarrow>
      \<not> (15 \<le> v \<and> v \<le> 25) \<and> \<not> (15 - 5.0 \<le> v \<and> v \<le> 25 + 5.0)) \<and>
   (getSensorStatus ''turbidity'' v = SAFE \<longleftrightarrow> v \<le> 0.8 * 5) \<and>
   (getSensorStatus ''turbidity'' v = WARNING \<longleftrightarrow> 0.8 * 5 < v \<and> v \<le> 5) \<and>
   (getSensorStatus ''turbidity'' v = UNSAFE \<longleftrightarrow> v > 5) \<and>
   (getSensorStatus ''tds'' v = SAFE \<longleftrightarrow> v \<le> 0.8 * 500) \<and>
   (getSensorStatus ''tds'' v = WARNING \<longleftrightarrow> 0.8 * 500 < v \<and> v \<le> 500) \<and>
   (getSensorStatus ''tds'' v = UNSAFE \<longleftrightarrow> v > 500)"
proof -
  have ph: "(getSensorStatus ''ph'' v = SAFE \<longleftrightarrow> 6.5 \<le> v \<and> v \<le> 8.5) \<and>
   (getSensorStatus ''ph'' v = WARNING \<longleftrightarrow>
      (6.5 - 0.5 \<le> v \<and> v \<le> 8.5 + 0.5) \<and> \<not> (6.5 \<le> v \<and> v \<le> 8.5)) \<and>
   (getSensorStatus ''ph'' v = UNSAFE \<longleftrightarrow>
      \<not> (6.5 \<le> v \<and> v \<le> 8.5) \<and> \<not> (6.5 - 0.5 \<le> v \<and> v \<le> 8.5 + 0.5))"
    unfolding status_ph by auto
  have temp: "(getSensorStatus ''temperature'' v = SAFE \<longleftrightarrow> 15 \<le> v \<and> v \<le> 25) \<and>
   (getSensorStatus ''temperature'' v = WARNING \<longleftrightarrow>
      (15 - 5.0 \<le> v \<and> v \<le> 25 + 5.0) \<and> \<not> (15 \<le> v \<and> v \<le> 25)) \<and>
   (getSensorStatus ''temperature'' v = UNSAFE \<longleftrightarrow>
      \<not> (15 \<le> v \<and> v \<le> 25) \<and> \<not> (15 - 5.0 \<le> v \<and> v \<le> 25 + 5.0))"
    unfolding status_temperature by auto
  have turb: "(getSensorStatus ''turbidity'' v = SAFE \<longleftrightarrow> v \<le> 0.8 * 5) \<and>
   (getSensorStatus ''turbidity'' v = WARNING \<longleftrightarrow> 0.8 * 5 < v \<and> v \<le> 5) \<and>
   (getSensorStatus ''turbidity'' v = UNSAFE \<longleftrightarrow> v > 5)"
    unfolding status_turbidity by auto
  have tds: "(getSensorStatus ''tds'' v = SAFE \<longleftrightarrow> v \<le> 0.8 * 500) \<and>
   (getSensorStatus ''tds'' v = WARNING \<longleftrightarrow> 0.8 * 500 < v \<and> v \<le> 500) \<and>
   (getSensorStatus ''tds'' v = UNSAFE \<longleftrightarrow> v > 500)"
    unfolding status_tds by auto
  from ph temp turb tds show ?thesis by (intro conjI) (elim conjE, assumption)+
qed

text \<open>
  C2. \<open>calculateWaterQuality\<close> classifies exactly the entries whose kind has a known
  threshold. The code tests \<open>SENSOR_THRESHOLDS[sensor]\<close> for truthiness, which a name
  inherited from \<open>Object.prototype\<close> passes: the entry \<open>toString\<close>, which is none of
  the four kinds, is classified and appears in the map of statuses.
\<close>

theorem aggregate_classifies_inherited_name:
  "\<not> defined_kind ''toString'' \<and>
   sensors (calculateWaterQuality [(''ph'', 7.2), (''toString'', 1)]) ''toString'' = Some SAFE"
  by (simp add: defined_kind_def sensors_check_each truthy_lookup status_inherited
      Object_prototype_def set_property_def Let_def)

text \<open>
  C3. For each of the four kinds, a value equal to the kind's min or to its max is
  Safe. This fails for turbidity and tds at max: Safe ends at 0.8 * max, so the value
  max is in the Warning band.
\<close>

theorem turbidity_at_max_is_not_safe: "getSensorStatus ''turbidity'' 5 \<noteq> SAFE"
  by (simp add: status_turbidity)

text \<open>
  C3, amended. For ph and temperature a value equal to min or to max is Safe; for
  turbidity and tds a value equal to min (0) is Safe and a value equal to max (5, 500)
  is Warning.
\<close>

theorem status_at_min_and_max:
  "getSensorStatus ''ph'' 6.5 = SAFE \<and> getSensorStatus ''ph'' 8.5 = SAFE \<and>
   getSensorStatus ''temperature'' 15 = SAFE \<and> getSensorStatus ''temperature'' 25 = SAFE \<and>
   getSensorStatus ''turbidity'' 0 = SAFE \<and> getSensorStatus ''tds'' 0 = SAFE \<and>
   getSensorStatus ''turbidity'' 5 = WARNING \<and> getSensorStatus ''tds'' 500 = WARNING"
  by (simp add: status_ph status_temperature status_turbidity status_tds)

text \<open>
  C4. \<open>getSafeRangePercentage\<close> applied to temperature uses the two-sided formula with
  midpoint 20 and range 10. The code has the two-sided branch for \<open>ph\<close> only;
  temperature falls through to the branch commented "for max-only thresholds
  (turbidity, TDS)" and gets \<open>value / 25 * 100\<close>: at the midpoint 20 the result is 80, where
  the two-sided formula gives 100.
\<close>

theorem temperature_percentage_is_max_only:
  "getSafeRangePercentage ''temperature'' 20 = Num 80 \<and> two_sided_position 15 25 20 = 100"
  by (simp add: getSafeRangePercentage_def getSafeRangePercentage_on_def
      two_sided_position_def Let_def fl_eval [of "-1"] fl_eval [of 6] rne_def)

text \<open>
  C5. For every finite value the percentage of ph equals
  \<open>clamp(0, 100, 100 - (|value - 7.5| / 1) * 100)\<close>, and the percentage of turbidity
  and tds equals \<open>clamp(0, 100, (value / max) * 100)\<close>. The functions compute in double
  arithmetic, and the equality fails by the rounding: for turbidity 2.75 the division
  gives the double next to 0.55, and the product with 100 rounds to
  \<open>55.00000000000001\<close>, not 55.
\<close>

theorem percentage_is_rounded:
  "getSafeRangePercentage ''turbidity'' 2.75 \<noteq> Num (max 0 (min 100 ((2.75 / 5) * 100)))"
  by (simp add: getSafeRangePercentage_def getSafeRangePercentage_on_def Let_def
      fl_eval [of "-1"] fl_eval [of 5] rne_def)

text \<open>
  C5, amended. For every finite value the percentage of ph is a number within
  \<open>10 ^ -13\<close> of \<open>clamp(0, 100, 100 - (|value - 7.5| / 1) * 100)\<close>; it is exactly 100 at
  the midpoint 7.5, exactly 0 at 6.5 and at 8.5, and exactly 0 beyond the edges. The
  percentage of turbidity and of tds is a number within \<open>10 ^ -13\<close> of
  \<open>clamp(0, 100, (value / max) * 100)\<close>; it is exactly 0 at 0, exactly 100 at max, and
  exactly 100 above max.
\<close>

theorem percentage_close_to_formulas:
  "close_to (1 / 10 ^ 13) (getSafeRangePercentage ''ph'' v)
     (max 0 (min 100 (100 - (\<bar>v - 7.5\<bar> / 1) * 100))) \<and>
   getSafeRangePercentage ''ph'' 7.5 = Num 100 \<and>
   getSafeRangePercentage ''ph'' 6.5 = Num 0 \<and>
   getSafeRangePercentage ''ph'' 8.5 = Num 0 \<and>
   (v \<le> 6.5 \<or> 8.5 \<le> v \<longrightarrow> getSafeRangePercentage ''ph'' v = Num 0) \<and>
   close_to (1 / 10 ^ 13) (getSafeRangePercentage ''turbidity'' v)
     (max 0 (min 100 ((v / 5) * 100))) \<and>
   getSafeRangePercentage ''turbidity'' 0 = Num 0 \<and>
   getSafeRangePercentage ''turbidity'' 5 = Num 100 \<and>
   (5 \<le> v \<longrightarrow> getSafeRangePercentage ''turbidity'' v = Num 100) \<and>
   close_to (1 / 10 ^ 13) (getSafeRangePercentage ''tds'' v)
     (max 0 (min 100 ((v / 500) * 100))) \<and>
   getSafeRangePercentage ''tds'' 0 = Num 0 \<and>
   getSafeRangePercentage ''tds'' 500 = Num 100 \<and>
   (500 \<le> v \<longrightarrow> getSafeRangePercentage ''tds'' v = Num 100)"
proof -
  have ph_mid: "getSafeRangePercentage ''ph'' 7.5 = Num 100"
    unfolding percentage_ph_unfold
    by (simp add: js_sub_def fl_eval [of 6] rne_def)
  have ph_out: "v \<le> 6.5 \<or> 8.5 \<le> v \<longrightarrow> getSafeRangePercentage ''ph'' v = Num 0"
    by (simp add: percentage_ph_far)
  have turb: "close_to (1 / 10 ^ 13) (getSafeRangePercentage ''turbidity'' v)
     (max 0 (min 100 ((v / 5) * 100)))"
    unfolding percentage_max_only_unfold by (rule one_sided_close) simp
  have tds: "close_to (1 / 10 ^ 13) (getSafeRangePercentage ''tds'' v)
     (max 0 (min 100 ((v / 500) * 100)))"
    unfolding percentage_max_only_unfold by (rule one_sided_close) simp
  have turb_out: "5 \<le> v \<longrightarrow> getSafeRangePercentage ''turbidity'' v = Num 100"
    unfolding percentage_max_only_unfold by (intro impI one_sided_above) simp_all
  have tds_out: "500 \<le> v \<longrightarrow> getSafeRangePercentage ''tds'' v = Num 100"
    unfolding percentage_max_only_unfold by (intro impI one_sided_above) simp_all
  have points:
    "getSafeRangePercentage ''ph'' 6.5 = Num 0"
    "getSafeRangePercentage ''ph'' 8.5 = Num 0"
    "getSafeRangePercentage ''turbidity'' 0 = Num 0"
    "getSafeRangePercentage ''turbidity'' 5 = Num 100"
    "getSafeRangePercentage ''tds'' 0 = Num 0"
    "getSafeRangePercentage ''tds'' 500 = Num 100"
    unfolding percentage_max_only_unfold
    by (rule percentage_ph_far one_sided_above one_sided_below; simp)+
  show ?thesis
    by (intro conjI percentage_ph_close ph_mid ph_out turb turb_out tds tds_out points)
qed

theorem percentage_close_to_formulas_witness:
  "((600::real) \<le> 6.5 \<or> 8.5 \<le> (600::real)) \<and>
   getSafeRangePercentage ''ph'' 600 = Num 0 \<and>
   (5::real) \<le> 600 \<and> getSafeRangePercentage ''turbidity'' 600 = Num 100 \<and>
   (500::real) \<le> 600 \<and> getSafeRangePercentage ''tds'' 600 = Num 100"
  using percentage_close_to_formulas [of 600] by simp

text \<open>
  C6. For every sensor name that is not one of the four kinds, \<open>getSensorStatus\<close>
  returns Warning, and \<open>calculateWaterQuality\<close> makes no entry for it. The guard
  \<open>if (!threshold)\<close> lets the names inherited from \<open>Object.prototype\<close> through: for
  \<open>constructor\<close> the status is Safe, from the last \<open>return\<close> of the function, and the
  aggregate records it.
\<close>

theorem inherited_name_is_safe:
  "\<not> defined_kind ''constructor'' \<and>
   getSensorStatus ''constructor'' 7 = SAFE \<and>
   sensors (calculateWaterQuality [(''constructor'', 7)]) ''constructor'' = Some SAFE"
  by (simp add: defined_kind_def sensors_check_each truthy_lookup status_inherited
      Object_prototype_def set_property_def Let_def)



text \<open>
  C8. For turbidity and for tds the severity of the status is monotone in the value:
  if \<open>v1 \<le> v2\<close> then the status of \<open>v1\<close> is at most as severe as the status of \<open>v2\<close>,
  in the order Safe < Warning < Unsafe.
\<close>

theorem severity_monotone:
  "v1 \<le> v2 \<Longrightarrow>
   severity (getSensorStatus ''turbidity'' v1) \<le> severity (getSensorStatus ''turbidity'' v2) \<and>
   severity (getSensorStatus ''tds'' v1) \<le> severity (getSensorStatus ''tds'' v2)"
  by (simp add: status_turbidity status_tds)

theorem severity_monotone_witness:
  "(4.5::real) \<le> 450 \<and>
   severity (getSensorStatus ''turbidity'' 4.5) \<le> severity (getSensorStatus ''turbidity'' 450) \<and>
   severity (getSensorStatus ''tds'' 4.5) \<le> severity (getSensorStatus ''tds'' 450)"
  using severity_monotone [of "4.5" 450] by simp

text \<open>
  C9. For every sensor name without a defined threshold, \<open>getSafeRangePercentage\<close>
  returns 50. For a name inherited from \<open>Object.prototype\<close> the guard \<open>if (!threshold)\<close>
  does not fire, \<open>threshold.max\<close> is \<open>undefined\<close> and the result is \<open>NaN\<close>.
\<close>

theorem inherited_name_percentage_is_NaN:
  "\<not> defined_kind ''hasOwnProperty'' \<and> getSafeRangePercentage ''hasOwnProperty'' 1 = NaN"
  by (simp add: defined_kind_def percentage_inherited Object_prototype_def)

text \<open>
  C10. For every sensor name and every finite value the result of
  \<open>getSafeRangePercentage\<close> lies between 0 and 100. For the inherited name \<open>valueOf\<close>
  the result is \<open>NaN\<close>, which lies in no interval.
\<close>

theorem inherited_name_percentage_out_of_range:
  "\<not> in_percent_range (getSafeRangePercentage ''valueOf'' 42)"
  by (simp add: in_percent_range_def percentage_inherited Object_prototype_def)

end
